theory Spec2Isabelle
  imports Main
begin

section \<open>Python values the program handles\<close>

text \<open>
  The program is \<^verbatim>\<open>link_checker.py\<close>. Its functions raise Python exceptions; the model
  returns them as values: a fallible result is \<open>exn + 'a\<close>, with \<open>Inl\<close> the exception
  that escapes the function. Strings are \<open>string\<close> (the UTF-8 bytes of the Python
  string: every character the program looks for is ASCII, so splitting, indexing the
  first and last character and searching behave the same on bytes as on code points).
\<close>

datatype exn = KeyError | IndexError | AttributeError | TypeError | RequestException

text \<open>
  \<^verbatim>\<open>sub in s\<close> for two strings: \<open>sub\<close> occurs in \<open>s\<close> as a contiguous run.
\<close>

fun py_in :: "string \<Rightarrow> string \<Rightarrow> bool" where
  "py_in sub [] = (sub = [])"
| "py_in sub (c # cs) = (take (length sub) (c # cs) = sub \<or> py_in sub cs)"

text \<open>
  \<^verbatim>\<open>s.split(sep)\<close> for a separator of one character: the pieces between the
  separators, the empty ones included; a string without the separator is the only piece.
\<close>

fun py_split :: "char \<Rightarrow> string \<Rightarrow> string list" where
  "py_split sep [] = [[]]"
| "py_split sep (c # cs) =
     (if c = sep then [] # py_split sep cs
      else (case py_split sep cs of
              [] \<Rightarrow> [[c]]
            | piece # pieces \<Rightarrow> (c # piece) # pieces))"

text \<open>\<^verbatim>\<open>xs[0]\<close>: the first element, IndexError on an empty sequence.\<close>

definition py_first :: "'a list \<Rightarrow> exn + 'a" where
  "py_first xs = (case xs of [] \<Rightarrow> Inl IndexError | x # _ \<Rightarrow> Inr x)"

section \<open>The parsed page (bs4)\<close>

text \<open>
  A parsed document is a tree of tags and strings. A tag has a name, its attributes (a
  dictionary, here an association list read with \<open>map_of\<close>) and its children in
  document order. The \<^verbatim>\<open>BeautifulSoup\<close> object is the root tag.
\<close>

datatype node =
    Tag (tag_name: string) (attrs: "(string \<times> string) list") (contents: "node list")
  | NavigableString string

text \<open>All nodes below a node, in document order (the node itself is not one of them).\<close>

fun descendants :: "node \<Rightarrow> node list" where
  "descendants (Tag n as cs) = concat (map (\<lambda>c. c # descendants c) cs)"
| "descendants (NavigableString s) = []"

fun is_tag_named :: "string \<Rightarrow> node \<Rightarrow> bool" where
  "is_tag_named name (Tag n as cs) = (n = name)"
| "is_tag_named name (NavigableString s) = False"

text \<open>\<^verbatim>\<open>tag.find_all(name)\<close>: every tag of that name below \<open>tag\<close>, in document order.\<close>

definition bs4_find_all :: "string \<Rightarrow> node \<Rightarrow> node list" where
  "bs4_find_all name t = filter (is_tag_named name) (descendants t)"

text \<open>\<^verbatim>\<open>tag.find(name)\<close>: the first of them, or \<^verbatim>\<open>None\<close>.\<close>

definition bs4_find :: "string \<Rightarrow> node \<Rightarrow> node option" where
  "bs4_find name t = (case bs4_find_all name t of [] \<Rightarrow> None | x # _ \<Rightarrow> Some x)"

text \<open>
  \<^verbatim>\<open>tag[key]\<close> is \<^verbatim>\<open>tag.attrs[key]\<close>, a dictionary lookup: KeyError when the tag has no
  such attribute. A string indexed by a string is a TypeError.
\<close>

fun tag_getitem :: "node \<Rightarrow> string \<Rightarrow> exn + string" where
  "tag_getitem (Tag n as cs) key =
     (case map_of as key of None \<Rightarrow> Inl KeyError | Some v \<Rightarrow> Inr v)"
| "tag_getitem (NavigableString s) key = Inl TypeError"

section \<open>The Href Normalizer\<close>

text \<open>
  \<^verbatim>\<open>extract_href(a, current_domain, scheme="https", strip_params=True)\<close>. The
  \<^verbatim>\<open>try\<close> around \<^verbatim>\<open>a['href']\<close> catches AttributeError only; any other exception
  of the lookup leaves the function. \<^verbatim>\<open>href[0]\<close> on the empty string raises
  IndexError. The call to \<^verbatim>\<open>logging.info\<close> has no part in the result.

  The body after the lookup has two steps, each a definition of its own:
  \<open>strip_query\<close> is lines 70 to 75 (the query string is cut off unless the href is
  one of the known sites), \<open>reconstitute\<close> is lines 77 to 81 (a relative link is
  completed with scheme and domain, and the href is returned).
\<close>

definition strip_query :: "bool \<Rightarrow> string \<Rightarrow> exn + string" where
  "strip_query strip_params href =
     (if strip_params then
        (if \<not> list_ex (\<lambda>x. py_in x href) [''youtube.com/watch'']
         then py_first (py_split (CHR ''?'') href)
         else Inr href)
      else Inr href)"

definition reconstitute :: "string \<Rightarrow> string \<Rightarrow> string \<Rightarrow> exn + string" where
  "reconstitute scheme current_domain href =
     (case href of
        [] \<Rightarrow> Inl IndexError
      | c # _ \<Rightarrow>
          if c = CHR ''/'' then Inr (scheme @ ''://'' @ current_domain @ href)
          else Inr href)"

definition extract_href :: "node \<Rightarrow> string \<Rightarrow> string \<Rightarrow> bool \<Rightarrow> exn + string" where
  "extract_href a current_domain scheme strip_params =
     (case tag_getitem a ''href'' of
        Inl e \<Rightarrow> (if e = AttributeError then Inr [] else Inl e)
      | Inr href \<Rightarrow>
          (case strip_query strip_params href of
             Inl e \<Rightarrow> Inl e
           | Inr href' \<Rightarrow> reconstitute scheme current_domain href'))"

section \<open>Link\<close>

record Link =
  url :: string
  anchor :: string
  http_status :: int
  redirect_chain :: "string list"
  final_url :: string

text \<open>
  \<^verbatim>\<open>Link.__init__(url, anchor, http_status, redirect_chain=None)\<close>: a chain that is
  \<^verbatim>\<open>None\<close> or empty is replaced by a new empty list.
\<close>

definition Link_init :: "string \<Rightarrow> string \<Rightarrow> int \<Rightarrow> string list option \<Rightarrow> Link" where
  "Link_init u a s chain =
     (let rc = (case chain of None \<Rightarrow> [] | Some xs \<Rightarrow> if xs \<noteq> [] then xs else []) in
      \<lparr> url = u, anchor = a, http_status = s, redirect_chain = rc,
        final_url = (if length rc = 0 then u else last rc) \<rparr>)"

text \<open>
  \<^verbatim>\<open>Link.to_dict\<close> builds a dictionary of strings, an integer and a list of
  strings; the report records nest such dictionaries in a list. A dictionary is an
  association list in insertion order, as Python keeps it.
\<close>

datatype pyval =
    PStr string
  | PInt int
  | PList "pyval list"
  | PDict "(string \<times> pyval) list"

definition to_dict :: "Link \<Rightarrow> pyval" where
  "to_dict l = PDict
     [(''url'', PStr (url l)),
      (''anchor'', PStr (anchor l)),
      (''http_status'', PInt (http_status l)),
      (''redirect_chain'', PList (map PStr (redirect_chain l))),
      (''final_url'', PStr (final_url l))]"

section \<open>The world outside: network, parser, domain extraction, clock\<close>

text \<open>
  A response of \<^verbatim>\<open>requests\<close>: the final URL, the body, the status code and the
  responses of the redirects that led to it.
\<close>

datatype response =
  Response (resp_url: string) (resp_text: string) (status_code: int)
    (history: "response list")

text \<open>
  The truth value of a response is its \<^verbatim>\<open>ok\<close> property (\<^verbatim>\<open>Response.__bool__\<close>
  of \<^verbatim>\<open>requests\<close> returns \<^verbatim>\<open>self.ok\<close>, which is false when
  \<^verbatim>\<open>raise_for_status\<close> raises, that is for \<^verbatim>\<open>400 <= status_code < 600\<close>): false
  exactly for the client and server error codes.
\<close>

definition response_bool :: "response \<Rightarrow> bool" where
  "response_bool r = (\<not> (400 \<le> status_code r \<and> status_code r < 600))"

text \<open>
  The libraries the program calls are the fields of an environment; \<open>'w\<close> is the state
  of the world, which a request or a reading of the clock may change and depend on.
  \<^item> \<open>requests_get\<close>: \<^verbatim>\<open>requests.get(url=url)\<close>, a response or the exception raised
    (a network error, a timeout, an invalid URL);
  \<^item> \<open>BeautifulSoup\<close>: \<^verbatim>\<open>bs4.BeautifulSoup(text, 'lxml')\<close>;
  \<^item> \<open>get_text_strip\<close>: \<^verbatim>\<open>a.get_text(strip=True)\<close>;
  \<^item> \<open>tldextract_fqdn\<close>: \<^verbatim>\<open>tldextract.extract(url).fqdn\<close>;
  \<^item> \<open>str_time_time\<close>: \<^verbatim>\<open>str(time.time())\<close>.
\<close>

record 'w env =
  requests_get :: "string \<Rightarrow> 'w \<Rightarrow> (exn + response) \<times> 'w"
  BeautifulSoup :: "string \<Rightarrow> node"
  get_text_strip :: "node \<Rightarrow> string"
  tldextract_fqdn :: "string \<Rightarrow> string"
  str_time_time :: "'w \<Rightarrow> string \<times> 'w"

definition make_request :: "'w env \<Rightarrow> string \<Rightarrow> 'w \<Rightarrow> (exn + response) \<times> 'w" where
  "make_request env u w = requests_get env u w"

text \<open>
  \<^verbatim>\<open>Link.create_link(url, anchor)\<close>: \<^verbatim>\<open>None\<close> when the response is falsy, the Link
  otherwise; an exception of the request is not caught.
\<close>

definition create_link :: "'w env \<Rightarrow> string \<Rightarrow> string \<Rightarrow> 'w \<Rightarrow> (exn + Link option) \<times> 'w" where
  "create_link env u a w =
     (case make_request env u w of
        (Inl e, w') \<Rightarrow> (Inl e, w')
      | (Inr data, w') \<Rightarrow>
          if \<not> response_bool data then (Inr None, w')
          else (Inr (Some (Link_init u a (status_code data)
                             (Some (map resp_url (history data))))), w'))"

section \<open>The Article Link Lister\<close>

text \<open>
  Lines 51 and 52 of \<^verbatim>\<open>get_medium_article_links\<close>: the resolved URL without one
  trailing slash, then the href of the link, then the cut at the first question mark.
  \<^verbatim>\<open>data.url[-1]\<close> raises IndexError on an empty URL and is evaluated before
  \<^verbatim>\<open>link['href']\<close>.
\<close>

definition article_href :: "response \<Rightarrow> node \<Rightarrow> exn + string" where
  "article_href data link =
     (if resp_url data = [] then Inl IndexError
      else
        (case tag_getitem link ''href'' of
           Inl e \<Rightarrow> Inl e
         | Inr h \<Rightarrow>
             (let href = (if last (resp_url data) = CHR ''/'' then butlast (resp_url data)
                          else resp_url data) @ h
              in if py_in ''?'' href then py_first (py_split (CHR ''?'') href)
                 else Inr href)))"

text \<open>
  The loop over the article blocks, with the list \<^verbatim>\<open>links\<close> it appends to. A tag is
  always truthy, so \<^verbatim>\<open>if link:\<close> tests that \<^verbatim>\<open>find\<close> returned one.
\<close>

fun article_links_loop :: "response \<Rightarrow> node list \<Rightarrow> string list \<Rightarrow> exn + string list" where
  "article_links_loop data [] links = Inr links"
| "article_links_loop data (article # articles) links =
     (case bs4_find ''a'' article of
        None \<Rightarrow> article_links_loop data articles links
      | Some link \<Rightarrow>
          (case article_href data link of
             Inl e \<Rightarrow> Inl e
           | Inr href \<Rightarrow> article_links_loop data articles (links @ [href])))"

definition get_medium_article_links :: "'w env \<Rightarrow> string \<Rightarrow> 'w \<Rightarrow> (exn + string list) \<times> 'w" where
  "get_medium_article_links env u w =
     (case make_request env u w of
        (Inl e, w') \<Rightarrow> (Inl e, w')
      | (Inr data, w') \<Rightarrow>
          (article_links_loop data
             (bs4_find_all ''article'' (BeautifulSoup env (resp_text data))) [], w'))"

section \<open>The Link Checker\<close>

text \<open>
  Lines 102 to 107 of \<^verbatim>\<open>check_medium_article_links\<close>: the href is normalized with
  the default scheme and stripping, then the link is created.
\<close>

definition the_link :: "'w env \<Rightarrow> string \<Rightarrow> node \<Rightarrow> 'w \<Rightarrow> (exn + Link option) \<times> 'w" where
  "the_link env current_domain a w =
     (case extract_href a current_domain ''https'' True of
        Inl e \<Rightarrow> (Inl e, w)
      | Inr href \<Rightarrow> create_link env href (get_text_strip env a) w)"

text \<open>
  The loop over the hyperlinks of the article block. A Link object is always truthy, so
  \<^verbatim>\<open>if the_link:\<close> tests that \<^verbatim>\<open>create_link\<close> returned one.
\<close>

fun links_loop :: "'w env \<Rightarrow> string \<Rightarrow> node list \<Rightarrow> Link list \<Rightarrow> 'w \<Rightarrow> (exn + Link list) \<times> 'w" where
  "links_loop env current_domain [] links w = (Inr links, w)"
| "links_loop env current_domain (a # as) links w =
     (case the_link env current_domain a w of
        (Inl e, w') \<Rightarrow> (Inl e, w')
      | (Inr None, w') \<Rightarrow> links_loop env current_domain as links w'
      | (Inr (Some l), w') \<Rightarrow> links_loop env current_domain as (links @ [l]) w')"

text \<open>
  \<^verbatim>\<open>check_medium_article_links(url)\<close>. \<^verbatim>\<open>soup.find('article')\<close> may be \<^verbatim>\<open>None\<close>,
  and \<^verbatim>\<open>None.find_all\<close> raises AttributeError. The domain is extracted from the
  argument \<^verbatim>\<open>url\<close>.
\<close>

definition check_medium_article_links :: "'w env \<Rightarrow> string \<Rightarrow> 'w \<Rightarrow> (exn + Link list) \<times> 'w" where
  "check_medium_article_links env u w =
     (case make_request env u w of
        (Inl e, w') \<Rightarrow> (Inl e, w')
      | (Inr data, w') \<Rightarrow>
          (let soup = BeautifulSoup env (resp_text data);
               article = bs4_find ''article'' soup;
               current_domain = tldextract_fqdn env u
           in case article of
                None \<Rightarrow> (Inl AttributeError, w')
              | Some art \<Rightarrow> links_loop env current_domain (bs4_find_all ''a'' art) [] w'))"

section \<open>The Report Assembler\<close>

text \<open>The dictionary appended for one article (lines 181 to 185).\<close>

definition report_record :: "string \<Rightarrow> string \<Rightarrow> Link list \<Rightarrow> pyval" where
  "report_record link timestamp article_links = PDict
     [(''url'', PStr link),
      (''timestamp'', PStr timestamp),
      (''links'', PList (map to_dict article_links))]"

fun report_loop :: "'w env \<Rightarrow> string list \<Rightarrow> pyval list \<Rightarrow> 'w \<Rightarrow> (exn + pyval list) \<times> 'w" where
  "report_loop env [] output w = (Inr output, w)"
| "report_loop env (link # links) output w =
     (case check_medium_article_links env link w of
        (Inl e, w1) \<Rightarrow> (Inl e, w1)
      | (Inr article_links, w1) \<Rightarrow>
          (case str_time_time env w1 of
             (timestamp, w2) \<Rightarrow>
               report_loop env links
                 (output @ [report_record link timestamp article_links]) w2))"

definition check_medium_links :: "'w env \<Rightarrow> string \<Rightarrow> 'w \<Rightarrow> (exn + pyval list) \<times> 'w" where
  "check_medium_links env profile_url w =
     (case get_medium_article_links env profile_url w of
        (Inl e, w1) \<Rightarrow> (Inl e, w1)
      | (Inr links, w1) \<Rightarrow> report_loop env links [] w1)"

section \<open>Auxiliary notions for the statements\<close>

text \<open>The Links an optional Link contributes to a list: none or one.\<close>

fun link_list :: "Link option \<Rightarrow> Link list" where
  "link_list None = []"
| "link_list (Some l) = [l]"

text \<open>
  What one article block contributes to the listing, in the words of the description of
  the Article Link Lister: nothing when the block has no \<^verbatim>\<open>a\<close> element; otherwise
  the resolved page URL without one trailing slash, followed by the href of the first
  \<^verbatim>\<open>a\<close> element, cut at the first question mark.
\<close>

definition first_href :: "response \<Rightarrow> node \<Rightarrow> string list" where
  "first_href data article =
     (case bs4_find ''a'' article of
        None \<Rightarrow> []
      | Some link \<Rightarrow>
          (case tag_getitem link ''href'' of
             Inl e \<Rightarrow> []
           | Inr h \<Rightarrow>
               [takeWhile (\<lambda>c. c \<noteq> CHR ''?'')
                  ((if last (resp_url data) = CHR ''/'' then butlast (resp_url data)
                    else resp_url data) @ h)]))"

section \<open>Example worlds\<close>

text \<open>
  Small worlds on which the functions are run. The network is a table from URLs to
  responses (a URL that is not in the table cannot be fetched: the request raises), the
  parser a table from page bodies to documents, the domain extraction a table from URLs
  to domains. The state of the world counts the requests and clock readings so far, and
  the clock shows a different time in every state. The text of an anchor is the strings
  below it, one after the other (those of the examples have no white space around them).
\<close>

definition node_text :: "node \<Rightarrow> string" where
  "node_text a =
     concat (map (\<lambda>d. case d of NavigableString s \<Rightarrow> s | Tag n as cs \<Rightarrow> [])
               (descendants a))"

definition web ::
  "(string \<times> response) list \<Rightarrow> (string \<times> node) list \<Rightarrow> (string \<times> string) list \<Rightarrow> nat env"
where
  "web pages docs domains =
     \<lparr> requests_get =
         (\<lambda>u n. (case map_of pages u of
                     None \<Rightarrow> Inl RequestException
                   | Some r \<Rightarrow> Inr r, Suc n)),
       BeautifulSoup =
         (\<lambda>t. case map_of docs t of None \<Rightarrow> Tag ''[document]'' [] [] | Some d \<Rightarrow> d),
       get_text_strip = node_text,
       tldextract_fqdn = (\<lambda>u. case map_of domains u of None \<Rightarrow> [] | Some d \<Rightarrow> d),
       str_time_time = (\<lambda>n. (''1700000000.'' @ replicate n (CHR ''5''), Suc n)) \<rparr>"

definition hyperlink :: "string \<Rightarrow> string \<Rightarrow> node" where
  "hyperlink href txt = Tag ''a'' [(''href'', href)] [NavigableString txt]"

definition page :: "string \<Rightarrow> string \<Rightarrow> int \<Rightarrow> string \<times> response" where
  "page u body status = (u, Response u body status [])"

text \<open>
  A profile with two articles of three links each; in each article one link answers
  with status 404.
\<close>

definition medium :: "nat env" where
  "medium = web
     [page ''https://p.medium.com/'' ''feed'' 200,
      page ''https://p.medium.com/one'' ''one'' 200,
      page ''https://p.medium.com/two'' ''two'' 200,
      page ''https://a.org/'' [] 200,
      page ''https://b.org/'' [] 200,
      page ''https://p.medium.com/gone'' [] 404,
      page ''https://c.org/lost'' [] 404]
     [(''feed'', Tag ''[document]'' []
         [Tag ''article'' [] [hyperlink ''/one?source=feed'' ''One''],
          Tag ''article'' [] [Tag ''div'' [] [hyperlink ''/two'' ''Two'']]]),
      (''one'', Tag ''[document]'' []
         [Tag ''article'' []
            [hyperlink ''https://a.org/'' ''A'', hyperlink ''/gone'' ''Gone'',
             hyperlink ''https://b.org/'' ''B'']]),
      (''two'', Tag ''[document]'' []
         [Tag ''article'' []
            [hyperlink ''https://c.org/lost'' ''Lost'', hyperlink ''https://a.org/'' ''A'',
             hyperlink ''https://b.org/'' ''B'']])]
     [(''https://p.medium.com/one'', ''p.medium.com''),
      (''https://p.medium.com/two'', ''p.medium.com'')]"

text \<open>An article whose second link points to a host that cannot be reached.\<close>

definition dead_host :: "nat env" where
  "dead_host = web
     [page ''https://p.medium.com/one'' ''one'' 200,
      page ''https://a.org/'' [] 200,
      page ''https://b.org/'' [] 200]
     [(''one'', Tag ''[document]'' []
         [Tag ''article'' []
            [hyperlink ''https://a.org/'' ''A'', hyperlink ''https://dead.invalid/'' ''Dead'',
             hyperlink ''https://b.org/'' ''B'']])]
     [(''https://p.medium.com/one'', ''p.medium.com'')]"

text \<open>A profile whose only article is a page without an \<^verbatim>\<open>article\<close> element.\<close>

definition bare :: "nat env" where
  "bare = web
     [page ''https://m.co/'' ''feed'' 200,
      page ''https://m.co/p'' ''plain'' 200]
     [(''feed'', Tag ''[document]'' [] [Tag ''article'' [] [hyperlink ''/p'' ''P'']]),
      (''plain'', Tag ''[document]'' [] [Tag ''div'' [] [hyperlink ''/x'' ''X'']])]
     [(''https://m.co/p'', ''m.co'')]"

text \<open>A profile whose article block holds one \<^verbatim>\<open>a\<close> element, without an href.\<close>

definition placeholder :: "nat env" where
  "placeholder = web
     [page ''https://m.co/'' ''feed'' 200]
     [(''feed'', Tag ''[document]'' []
         [Tag ''article'' [] [Tag ''a'' [(''name'', ''top'')] [NavigableString ''Top'']]])]
     []"

text \<open>
  An article requested on \<^verbatim>\<open>medium.com\<close> and served, after a redirect, from
  \<^verbatim>\<open>p.medium.com\<close>; it holds one relative link.
\<close>

definition redirected :: "nat env" where
  "redirected = web
     [(''https://medium.com/@p/one'',
         Response ''https://p.medium.com/one'' ''one'' 200
           [Response ''https://medium.com/@p/one'' [] 301 []]),
      page ''https://medium.com/about'' [] 200,
      page ''https://p.medium.com/about'' [] 200]
     [(''one'', Tag ''[document]'' [] [Tag ''article'' [] [hyperlink ''/about'' ''About'']])]
     [(''https://medium.com/@p/one'', ''medium.com''),
      (''https://p.medium.com/one'', ''p.medium.com'')]"

text \<open>
  A profile with one article that holds one link; the link is answered, with status
  203, after two redirects.
\<close>

definition tiny :: "nat env" where
  "tiny = web
     [page ''https://q.medium.com'' ''feed'' 200,
      page ''https://q.medium.com/post'' ''post'' 200,
      (''https://a.org/old'',
         Response ''https://a.org/new'' [] 203
           [Response ''https://a.org/old'' [] 301 [],
            Response ''https://a.org/mid'' [] 302 []])]
     [(''feed'', Tag ''[document]'' [] [Tag ''article'' [] [hyperlink ''/post'' ''Post'']]),
      (''post'', Tag ''[document]'' []
         [Tag ''article'' [] [hyperlink ''https://a.org/old'' ''Old post'']])]
     [(''https://q.medium.com/post'', ''q.medium.com'')]"

section \<open>Facts about the string operations\<close>

lemma py_first_split: "py_first (py_split sep s) = Inr (takeWhile (\<lambda>c. c \<noteq> sep) s)"
  by (induction s) (auto simp: py_first_def split: list.splits)

lemma py_in_single: "py_in [c] s \<longleftrightarrow> c \<in> set s"
  by (induction s) auto

lemma strip_query_eq:
  "strip_query sp href =
     Inr (if sp \<and> \<not> py_in ''youtube.com/watch'' href
          then takeWhile (\<lambda>c. c \<noteq> CHR ''?'') href else href)"
  by (simp add: strip_query_def py_first_split)

lemma extract_href_present:
  assumes "tag_getitem a ''href'' = Inr href"
  shows "extract_href a d scheme sp =
           reconstitute scheme d
             (if sp \<and> \<not> py_in ''youtube.com/watch'' href
              then takeWhile (\<lambda>c. c \<noteq> CHR ''?'') href else href)"
  using assms by (simp add: extract_href_def strip_query_eq)

lemma article_href_eq:
  assumes "resp_url data \<noteq> []" and "tag_getitem link ''href'' = Inr h"
  shows "article_href data link =
           Inr (takeWhile (\<lambda>c. c \<noteq> CHR ''?'')
                  ((if last (resp_url data) = CHR ''/'' then butlast (resp_url data)
                    else resp_url data) @ h))"
proof -
  define href where
    "href = (if last (resp_url data) = CHR ''/'' then butlast (resp_url data)
             else resp_url data) @ h"
  have cut: "(if py_in ''?'' href then py_first (py_split (CHR ''?'') href) else Inr href)
               = Inr (takeWhile (\<lambda>c. c \<noteq> CHR ''?'') href)"
  proof (cases "py_in ''?'' href")
    case True
    then show ?thesis by (simp add: py_first_split)
  next
    case False
    then have "takeWhile (\<lambda>c. c \<noteq> CHR ''?'') href = href"
      by (auto simp: py_in_single)
    with False show ?thesis by (simp only: if_False)
  qed
  from assms have "article_href data link =
      (if py_in ''?'' href then py_first (py_split (CHR ''?'') href) else Inr href)"
    by (simp add: article_href_def Let_def href_def)
  with cut show ?thesis by (simp only: href_def)
qed

section \<open>Facts about the loops\<close>

text \<open>
  Each loop appends to a list it starts empty. What it appends does not depend on what
  the list already holds, so a loop over \<open>x # xs\<close> is the step for \<open>x\<close> followed by
  the loop over \<open>xs\<close>.
\<close>

lemma article_links_loop_eq:
  assumes "resp_url data \<noteq> []"
      and "\<forall>art\<in>set articles. \<forall>link. bs4_find ''a'' art = Some link \<longrightarrow>
             (\<exists>h. tag_getitem link ''href'' = Inr h)"
  shows "article_links_loop data articles links =
           Inr (links @ concat (map (first_href data) articles))"
  using assms(2)
proof (induction articles arbitrary: links)
  case Nil
  show ?case by simp
next
  case (Cons art articles)
  show ?case
  proof (cases "bs4_find ''a'' art")
    case None
    then have "first_href data art = []" by (simp add: first_href_def)
    with None Cons show ?thesis by simp
  next
    case (Some link)
    with Cons.prems obtain h where h: "tag_getitem link ''href'' = Inr h" by auto
    from Cons have "article_links_loop data articles (links @ [x]) =
        Inr ((links @ [x]) @ concat (map (first_href data) articles))" for x
      by simp
    moreover from Some h have "first_href data art =
        [takeWhile (\<lambda>c. c \<noteq> CHR ''?'')
           ((if last (resp_url data) = CHR ''/'' then butlast (resp_url data)
             else resp_url data) @ h)]"
      by (simp add: first_href_def)
    ultimately show ?thesis
      using Some h assms(1) by (simp add: article_href_eq del: takeWhile_append)
  qed
qed

lemma links_loop_acc:
  "links_loop env cd as (acc @ acc') w =
     (case links_loop env cd as acc' w of
        (Inl e, w1) \<Rightarrow> (Inl e, w1)
      | (Inr ls, w1) \<Rightarrow> (Inr (acc @ ls), w1))"
proof (induction as arbitrary: acc' w)
  case Nil
  show ?case by simp
next
  case (Cons a as)
  show ?case
  proof (cases "the_link env cd a w")
    case (Pair r w1)
    show ?thesis
    proof (cases r)
      case (Inl e)
      with Pair show ?thesis by simp
    next
      case (Inr lo)
      show ?thesis
      proof (cases lo)
        case None
        with Pair Inr Cons.IH [of acc' w1] show ?thesis by simp
      next
        case (Some l)
        with Pair Inr Cons.IH [of "acc' @ [l]" w1] show ?thesis by simp
      qed
    qed
  qed
qed

lemma links_loop_Cons:
  "links_loop env cd (a # as) [] w =
     (case the_link env cd a w of
        (Inl e, w1) \<Rightarrow> (Inl e, w1)
      | (Inr r, w1) \<Rightarrow>
          (case links_loop env cd as [] w1 of
             (Inl e, w2) \<Rightarrow> (Inl e, w2)
           | (Inr ls, w2) \<Rightarrow> (Inr (link_list r @ ls), w2)))"
proof (cases "the_link env cd a w")
  case (Pair r w1)
  show ?thesis
  proof (cases r)
    case (Inl e)
    with Pair show ?thesis by simp
  next
    case (Inr lo)
    show ?thesis
    proof (cases lo)
      case None
      with Pair Inr show ?thesis by (simp split: prod.splits sum.splits)
    next
      case (Some l)
      with Pair Inr links_loop_acc [of env cd as "[l]" "[]" w1] show ?thesis
        by (simp split: prod.splits sum.splits)
    qed
  qed
qed

lemma all_less_Suc_shift: "(\<forall>i<Suc n. P i) \<longleftrightarrow> P 0 \<and> (\<forall>i<n. P (Suc i))"
  by (auto simp: less_Suc_eq_0_disj)

text \<open>
  The loop returns a list exactly when every hyperlink has its turn and none raises:
  \<open>ws\<close> are the states of the world before each turn and after the last, \<open>rs\<close> what
  each turn yielded.
\<close>

lemma links_loop_turns:
  "links_loop env cd as [] w = (Inr out, w') \<longleftrightarrow>
     (\<exists>ws rs. length ws = Suc (length as) \<and> length rs = length as \<and>
        ws ! 0 = w \<and> ws ! length as = w' \<and>
        (\<forall>i<length as. the_link env cd (as ! i) (ws ! i) = (Inr (rs ! i), ws ! Suc i)) \<and>
        out = concat (map link_list rs))"
proof (induction as arbitrary: w out)
  case Nil
  show ?case by (auto simp: length_Suc_conv)
next
  case (Cons a as)
  show ?case (is "?L \<longleftrightarrow> ?R")
  proof
    assume ?L
    then obtain r w1 ls where a: "the_link env cd a w = (Inr r, w1)"
      and rest: "links_loop env cd as [] w1 = (Inr ls, w')" and out: "out = link_list r @ ls"
      by (auto simp: links_loop_Cons simp del: links_loop.simps split: prod.splits sum.splits)
    from rest Cons.IH [of w1 ls] obtain ws rs where
      h: "length ws = Suc (length as)" "length rs = length as" "ws ! 0 = w1"
         "ws ! length as = w'"
         "\<forall>i<length as. the_link env cd (as ! i) (ws ! i) = (Inr (rs ! i), ws ! Suc i)"
         "ls = concat (map link_list rs)"
      by blast
    show ?R
      apply (rule exI [of _ "w # ws"], rule exI [of _ "r # rs"])
      using h a out by (simp add: all_less_Suc_shift)
  next
    assume ?R
    then obtain ws rs where
      h: "length ws = Suc (Suc (length as))" "length rs = Suc (length as)" "ws ! 0 = w"
         "ws ! Suc (length as) = w'"
         "\<forall>i<Suc (length as).
            the_link env cd ((a # as) ! i) (ws ! i) = (Inr (rs ! i), ws ! Suc i)"
         "out = concat (map link_list rs)"
      by auto
    from h(1) obtain w0 vs where ws: "ws = w0 # vs" "length vs = Suc (length as)"
      by (auto simp: length_Suc_conv)
    from h(2) obtain r qs where rs: "rs = r # qs" "length qs = length as"
      by (auto simp: length_Suc_conv)
    from h(3) ws have w0: "w0 = w" by simp
    from h(5) ws rs w0 have a: "the_link env cd a w = (Inr r, vs ! 0)"
      and rest: "\<forall>i<length as. the_link env cd (as ! i) (vs ! i) = (Inr (qs ! i), vs ! Suc i)"
      by (simp_all add: all_less_Suc_shift)
    have "links_loop env cd as [] (vs ! 0) = (Inr (concat (map link_list qs)), w')"
      using Cons.IH [of "vs ! 0" "concat (map link_list qs)"] ws rs rest h(4) by auto
    with a h(6) rs show ?L by (simp add: links_loop_Cons del: links_loop.simps)
  qed
qed

lemma report_loop_acc:
  "report_loop env arts (acc @ acc') w =
     (case report_loop env arts acc' w of
        (Inl e, w1) \<Rightarrow> (Inl e, w1)
      | (Inr rs, w1) \<Rightarrow> (Inr (acc @ rs), w1))"
proof (induction arts arbitrary: acc' w)
  case Nil
  show ?case by simp
next
  case (Cons a arts)
  show ?case
  proof (cases "check_medium_article_links env a w")
    case (Pair r w1)
    show ?thesis
    proof (cases r)
      case (Inl e)
      with Pair show ?thesis by simp
    next
      case (Inr ls)
      obtain ts w2 where t: "str_time_time env w1 = (ts, w2)"
        by (cases "str_time_time env w1")
      with Pair Inr Cons.IH [of "acc' @ [report_record a ts ls]" w2] show ?thesis by simp
    qed
  qed
qed

lemma report_loop_Cons:
  "report_loop env (a # arts) [] w =
     (case check_medium_article_links env a w of
        (Inl e, w1) \<Rightarrow> (Inl e, w1)
      | (Inr ls, w1) \<Rightarrow>
          (case str_time_time env w1 of
             (ts, w2) \<Rightarrow>
               (case report_loop env arts [] w2 of
                  (Inl e, w3) \<Rightarrow> (Inl e, w3)
                | (Inr rs, w3) \<Rightarrow> (Inr (report_record a ts ls # rs), w3))))"
proof (cases "check_medium_article_links env a w")
  case (Pair r w1)
  show ?thesis
  proof (cases r)
    case (Inl e)
    with Pair show ?thesis by simp
  next
    case (Inr ls)
    obtain ts w2 where t: "str_time_time env w1 = (ts, w2)"
      by (cases "str_time_time env w1")
    with Pair Inr report_loop_acc [of env arts "[report_record a ts ls]" "[]" w2]
    show ?thesis
      by (simp split: prod.splits sum.splits)
  qed
qed

lemma report_loop_turns:
  "report_loop env arts [] w = (Inr out, w') \<longleftrightarrow>
     (\<exists>ws. length ws = Suc (length arts) \<and> ws ! 0 = w \<and> ws ! length arts = w' \<and>
        length out = length arts \<and>
        (\<forall>i<length arts. \<exists>ls wi ts.
            check_medium_article_links env (arts ! i) (ws ! i) = (Inr ls, wi) \<and>
            str_time_time env wi = (ts, ws ! Suc i) \<and>
            out ! i = report_record (arts ! i) ts ls))"
proof (induction arts arbitrary: w out)
  case Nil
  show ?case by (auto simp: length_Suc_conv)
next
  case (Cons a arts)
  show ?case (is "?L \<longleftrightarrow> ?R")
  proof
    assume ?L
    then obtain ls w1 ts w2 rs where a: "check_medium_article_links env a w = (Inr ls, w1)"
      and t: "str_time_time env w1 = (ts, w2)"
      and rest: "report_loop env arts [] w2 = (Inr rs, w')"
      and out: "out = report_record a ts ls # rs"
      by (auto simp: report_loop_Cons simp del: report_loop.simps
               split: prod.splits sum.splits)
    from rest Cons.IH [of w2 rs] obtain ws where
      h: "length ws = Suc (length arts)" "ws ! 0 = w2" "ws ! length arts = w'"
         "length rs = length arts"
         "\<forall>i<length arts. \<exists>ls wi ts.
            check_medium_article_links env (arts ! i) (ws ! i) = (Inr ls, wi) \<and>
            str_time_time env wi = (ts, ws ! Suc i) \<and>
            rs ! i = report_record (arts ! i) ts ls"
      by blast
    show ?R
      apply (rule exI [of _ "w # ws"])
      using h a t out by (simp add: all_less_Suc_shift)
  next
    assume ?R
    then obtain ws where
      h: "length ws = Suc (Suc (length arts))" "ws ! 0 = w" "ws ! Suc (length arts) = w'"
         "length out = Suc (length arts)"
         "\<forall>i<Suc (length arts). \<exists>ls wi ts.
            check_medium_article_links env ((a # arts) ! i) (ws ! i) = (Inr ls, wi) \<and>
            str_time_time env wi = (ts, ws ! Suc i) \<and>
            out ! i = report_record ((a # arts) ! i) ts ls"
      by auto
    from h(1) obtain w0 vs where ws: "ws = w0 # vs" "length vs = Suc (length arts)"
      by (auto simp: length_Suc_conv)
    from h(4) obtain r rs where out: "out = r # rs" "length rs = length arts"
      by (auto simp: length_Suc_conv)
    from h(2) ws have w0: "w0 = w" by simp
    from h(5) ws out w0 obtain ls w1 ts where
      a: "check_medium_article_links env a w = (Inr ls, w1)"
      and t: "str_time_time env w1 = (ts, vs ! 0)"
      and r: "r = report_record a ts ls"
      by (auto simp: all_less_Suc_shift)
    from h(5) ws out have rest: "\<forall>i<length arts. \<exists>ls wi ts.
            check_medium_article_links env (arts ! i) (vs ! i) = (Inr ls, wi) \<and>
            str_time_time env wi = (ts, vs ! Suc i) \<and>
            rs ! i = report_record (arts ! i) ts ls"
      by (simp add: all_less_Suc_shift)
    have "report_loop env arts [] (vs ! 0) = (Inr rs, w')"
      using Cons.IH [of "vs ! 0" rs] ws out rest h(3) by auto
    with a t r out show ?L by (simp add: report_loop_Cons del: report_loop.simps)
  qed
qed

text \<open>The loop raises what the first hyperlink that raises at its turn raises.\<close>

lemma links_loop_raises:
  assumes "k < length as" and "length ws = Suc k" and "ws ! 0 = w"
      and "\<forall>i<k. \<exists>r. the_link env cd (as ! i) (ws ! i) = (Inr r, ws ! Suc i)"
      and "the_link env cd (as ! k) (ws ! k) = (Inl e, w')"
  shows "links_loop env cd as [] w = (Inl e, w')"
  using assms
proof (induction as arbitrary: k ws w)
  case Nil
  then show ?case by simp
next
  case (Cons a as)
  show ?case
  proof (cases k)
    case 0
    with Cons.prems show ?thesis by (simp add: links_loop_Cons del: links_loop.simps)
  next
    case (Suc j)
    with Cons.prems(2) obtain w0 vs where ws: "ws = w0 # vs" "length vs = Suc j"
      by (auto simp: length_Suc_conv)
    from Cons.prems(3) ws have w0: "w0 = w" by simp
    from Cons.prems(4) Suc ws w0 obtain r where
      a: "the_link env cd a w = (Inr r, vs ! 0)"
      and rest: "\<forall>i<j. \<exists>r. the_link env cd (as ! i) (vs ! i) = (Inr r, vs ! Suc i)"
      by (auto simp: all_less_Suc_shift)
    from Cons.prems(1,5) Suc ws have "j < length as"
      and "the_link env cd (as ! j) (vs ! j) = (Inl e, w')"
      by simp_all
    with Cons.IH [of j vs "vs ! 0"] ws rest
    have "links_loop env cd as [] (vs ! 0) = (Inl e, w')" by simp
    with a show ?thesis by (simp add: links_loop_Cons del: links_loop.simps)
  qed
qed

lemma the_link_raises:
  "the_link env cd a w = (Inl e, w') \<longleftrightarrow>
     (extract_href a cd ''https'' True = Inl e \<and> w' = w) \<or>
     (\<exists>href. extract_href a cd ''https'' True = Inr href \<and>
         requests_get env href w = (Inl e, w'))"
  by (cases "extract_href a cd ''https'' True")
     (auto simp: the_link_def create_link_def make_request_def split: prod.splits sum.splits)

lemma report_loop_raises:
  assumes "k < length arts" and "length ws = Suc k" and "ws ! 0 = w"
      and "\<forall>i<k. \<exists>ls wi ts.
             check_medium_article_links env (arts ! i) (ws ! i) = (Inr ls, wi) \<and>
             str_time_time env wi = (ts, ws ! Suc i)"
      and "check_medium_article_links env (arts ! k) (ws ! k) = (Inl e, w')"
  shows "report_loop env arts [] w = (Inl e, w')"
  using assms
proof (induction arts arbitrary: k ws w)
  case Nil
  then show ?case by simp
next
  case (Cons a arts)
  show ?case
  proof (cases k)
    case 0
    with Cons.prems show ?thesis by (simp add: report_loop_Cons del: report_loop.simps)
  next
    case (Suc j)
    with Cons.prems(2) obtain w0 vs where ws: "ws = w0 # vs" "length vs = Suc j"
      by (auto simp: length_Suc_conv)
    from Cons.prems(3) ws have w0: "w0 = w" by simp
    from Cons.prems(4) Suc ws w0 obtain ls w1 ts where
      a: "check_medium_article_links env a w = (Inr ls, w1)"
      and t: "str_time_time env w1 = (ts, vs ! 0)"
      and rest: "\<forall>i<j. \<exists>ls wi ts.
             check_medium_article_links env (arts ! i) (vs ! i) = (Inr ls, wi) \<and>
             str_time_time env wi = (ts, vs ! Suc i)"
      by (auto simp: all_less_Suc_shift)
    from Cons.prems(1,5) Suc ws have "j < length arts"
      and "check_medium_article_links env (arts ! j) (vs ! j) = (Inl e, w')"
      by simp_all
    with Cons.IH [of j vs "vs ! 0"] ws rest
    have "report_loop env arts [] (vs ! 0) = (Inl e, w')" by simp
    with a t show ?thesis by (simp add: report_loop_Cons del: report_loop.simps)
  qed
qed

section \<open>Running the program on the example worlds\<close>

lemmas run_simps = web_def hyperlink_def page_def node_text_def
  check_medium_links_def get_medium_article_links_def make_request_def bs4_find_all_def
  bs4_find_def article_href_def py_first_def check_medium_article_links_def the_link_def
  extract_href_def strip_query_def reconstitute_def create_link_def response_bool_def
  Link_init_def report_record_def to_dict_def Let_def

section \<open>The claims\<close>

subsection \<open>C1: links that answer 404\<close>

text \<open>
  Claim C1: end to end, for a profile whose articles contain links that resolve with
  HTTP 404, a Link record with \<^verbatim>\<open>http_status\<close> 404 is constructed for each such link
  and included in the article's report; only links whose fetch fails entirely are left
  out.

  The code does not do this. \<^verbatim>\<open>create_link\<close> returns \<^verbatim>\<open>None\<close> when
  \<^verbatim>\<open>not data\<close>, and a response with a status from 400 to 599 is falsy, so a link
  that answers 404 gets no Link record. The run below is the scenario of the claim: two
  articles, three links each, one of the three answering 404 (the second link of the
  first article, fetched in state 3, and the first link of the second, fetched in state
  7). Each report holds two links, both with status 200; the links that answered 404
  are missing.
\<close>

theorem check_medium_links_drops_404:
  "requests_get medium ''https://p.medium.com/gone'' 3
     = (Inr (Response ''https://p.medium.com/gone'' [] 404 []), 4)
   \<and> requests_get medium ''https://c.org/lost'' 7
     = (Inr (Response ''https://c.org/lost'' [] 404 []), 8)
   \<and> check_medium_links medium ''https://p.medium.com/'' 0 =
       (Inr [PDict
              [(''url'', PStr ''https://p.medium.com/one''),
               (''timestamp'', PStr ''1700000000.55555''),
               (''links'',
                PList
                 [PDict
                   [(''url'', PStr ''https://a.org/''), (''anchor'', PStr ''A''),
                    (''http_status'', PInt 200), (''redirect_chain'', PList []),
                    (''final_url'', PStr ''https://a.org/'')],
                  PDict
                   [(''url'', PStr ''https://b.org/''), (''anchor'', PStr ''B''),
                    (''http_status'', PInt 200), (''redirect_chain'', PList []),
                    (''final_url'', PStr ''https://b.org/'')]])],
             PDict
              [(''url'', PStr ''https://p.medium.com/two''),
               (''timestamp'', PStr ''1700000000.5555555555''),
               (''links'',
                PList
                 [PDict
                   [(''url'', PStr ''https://a.org/''), (''anchor'', PStr ''A''),
                    (''http_status'', PInt 200), (''redirect_chain'', PList []),
                    (''final_url'', PStr ''https://a.org/'')],
                  PDict
                   [(''url'', PStr ''https://b.org/''), (''anchor'', PStr ''B''),
                    (''http_status'', PInt 200), (''redirect_chain'', PList []),
                    (''final_url'', PStr ''https://b.org/'')]])]],
        11)"
  by (simp add: medium_def run_simps)

subsection \<open>C2: an anchor without href\<close>

text \<open>
  Claim C2: for every anchor element that has no href attribute, \<^verbatim>\<open>extract_href\<close>
  returns the empty string rather than raising an exception.

  The code does not do this. The lookup \<^verbatim>\<open>a['href']\<close> raises KeyError on a tag
  without that attribute, and the handler around it catches AttributeError only, so the
  KeyError leaves the function. The anchor below is \<^verbatim>\<open><a name="top">Top</a>\<close>.
\<close>

theorem extract_href_without_href_raises:
  "extract_href (Tag ''a'' [(''name'', ''top'')] [NavigableString ''Top''])
     ''medium.com'' ''https'' True = Inl KeyError"
  by (simp add: extract_href_def)

subsection \<open>C3: links whose fetch fails\<close>

text \<open>
  Claim C3: for every article page, the Link Checker omits from its result any link
  whose normalized href is empty and any link whose fetch fails entirely, and no
  exception escapes the Link Checker for an individual link check: the remaining links
  are returned normally.

  The code does not do this. \<^verbatim>\<open>create_link\<close> is declared to return a Link or
  \<^verbatim>\<open>None\<close>, returns \<^verbatim>\<open>None\<close> when \<^verbatim>\<open>not data\<close>, and its caller keeps a link
  only \<^verbatim>\<open>if the_link\<close>; but a fetch that fails entirely does not yield a falsy value,
  the request raises, and nothing catches the exception. In the article below the
  second of three hyperlinks points to a host that cannot be reached (it is fetched in
  state 2): the Link Checker raises and returns none of the three links.
\<close>

theorem check_medium_article_links_fetch_failure_escapes:
  "requests_get dead_host ''https://dead.invalid/'' 2 = (Inl RequestException, 3)
   \<and> check_medium_article_links dead_host ''https://p.medium.com/one'' 0
       = (Inl RequestException, 3)"
  by (simp add: dead_host_def run_simps)

subsection \<open>C4: hrefs that begin with a slash\<close>

text \<open>
  Claim C4, as amended: for every href beginning with \<^verbatim>\<open>/\<close>, \<^verbatim>\<open>extract_href\<close>
  returns the scheme, \<^verbatim>\<open>://\<close>, the domain and then the href as the stripping step left
  it: cut at its first question mark when stripping is on (the default) and the href
  does not contain \<^verbatim>\<open>youtube.com/watch\<close>, unchanged otherwise. In particular an href
  without a question mark is appended unchanged.
\<close>

theorem extract_href_relative:
  assumes "tag_getitem a ''href'' = Inr href" and "href \<noteq> []" and "hd href = CHR ''/''"
  shows "extract_href a current_domain scheme strip_params =
           Inr (scheme @ ''://'' @ current_domain @
                (if strip_params \<and> \<not> py_in ''youtube.com/watch'' href
                 then takeWhile (\<lambda>c. c \<noteq> CHR ''?'') href
                 else href))
         \<and> (CHR ''?'' \<notin> set href \<longrightarrow>
              extract_href a current_domain scheme strip_params =
                Inr (scheme @ ''://'' @ current_domain @ href))"
proof -
  from assms(2,3) obtain rest where href: "href = CHR ''/'' # rest" by (cases href) auto
  have "CHR ''?'' \<notin> set href \<Longrightarrow> takeWhile (\<lambda>c. c \<noteq> CHR ''?'') href = href"
    by (auto simp: takeWhile_eq_all_conv)
  moreover from assms(1) href
  have "extract_href a current_domain scheme strip_params =
           Inr (scheme @ ''://'' @ current_domain @
                (if strip_params \<and> \<not> py_in ''youtube.com/watch'' href
                 then takeWhile (\<lambda>c. c \<noteq> CHR ''?'') href
                 else href))"
    by (simp add: extract_href_present reconstitute_def)
  ultimately show ?thesis by (simp only: if_split) auto
qed

theorem extract_href_relative_witness:
  "tag_getitem (Tag ''a'' [(''href'', ''/p/about?source=feed'')] []) ''href''
     = Inr ''/p/about?source=feed''
   \<and> ''/p/about?source=feed'' \<noteq> [] \<and> hd ''/p/about?source=feed'' = CHR ''/''
   \<and> extract_href (Tag ''a'' [(''href'', ''/p/about?source=feed'')] [])
       ''medium.com'' ''https'' True
       = Inr ''https://medium.com/p/about''"
  using extract_href_relative
    [of "Tag ''a'' [(''href'', ''/p/about?source=feed'')] []" "''/p/about?source=feed''"
        "''medium.com''" "''https''" True]
  by simp

text \<open>
  Claim C4 as it was stated fails: with the default arguments the query string of a
  relative href is cut off, so the result is not the scheme, the domain and the href
  unchanged.
\<close>

theorem extract_href_relative_strips_query:
  "extract_href (Tag ''a'' [(''href'', ''/a?b=1'')] []) ''medium.com'' ''https'' True
     = Inr ''https://medium.com/a''
   \<and> extract_href (Tag ''a'' [(''href'', ''/a?b=1'')] []) ''medium.com'' ''https'' True
     \<noteq> Inr (''https'' @ ''://'' @ ''medium.com'' @ ''/a?b=1'')"
  by (simp add: extract_href_def strip_query_def reconstitute_def py_first_def)

subsection \<open>C5: stripping the query string\<close>

text \<open>
  Claim C5: when parameter stripping is enabled (the default), for every href that does
  not contain \<^verbatim>\<open>youtube.com/watch\<close> everything from the first question mark onward
  is removed, and for every href that contains it the query parameters are kept as they
  are.

  The code does not do this for an href that has nothing before its first question
  mark. The cut leaves the empty string, and the next statement reads \<^verbatim>\<open>href[0]\<close>
  without a guard: the normalizer raises IndexError instead of returning the href
  without its query string. The anchors below are \<^verbatim>\<open><a href="?page=2">next</a>\<close>
  and \<^verbatim>\<open><a href="">here</a>\<close>.
\<close>

theorem extract_href_query_only_raises:
  "extract_href (Tag ''a'' [(''href'', ''?page=2'')] [NavigableString ''next''])
     ''medium.com'' ''https'' True = Inl IndexError
   \<and> extract_href (Tag ''a'' [(''href'', [])] [NavigableString ''here''])
     ''medium.com'' ''https'' True = Inl IndexError"
  by (simp add: extract_href_def strip_query_def reconstitute_def py_first_def)

subsection \<open>C6: the final URL of a Link\<close>

text \<open>
  Claim C6: for every constructed Link, \<^verbatim>\<open>final_url\<close> equals \<^verbatim>\<open>url\<close> when
  \<^verbatim>\<open>redirect_chain\<close> is empty and equals the last element of \<^verbatim>\<open>redirect_chain\<close>
  otherwise, whatever the arguments of the constructor.
\<close>

theorem Link_final_url:
  "final_url (Link_init u a s chain) =
     (if redirect_chain (Link_init u a s chain) = [] then url (Link_init u a s chain)
      else last (redirect_chain (Link_init u a s chain)))"
  by (simp add: Link_init_def Let_def split: option.splits)

subsection \<open>C7: listing the articles of a profile\<close>

text \<open>
  Claim C7: the Article Link Lister returns no URL for a page without article blocks,
  one URL per article block (in document order, duplicates kept) for a page whose blocks
  each contain one hyperlink, and skips silently an article block that contains no
  hyperlink.

  The code does not do this for a block whose first \<^verbatim>\<open>a\<close> element has no href
  attribute: \<^verbatim>\<open>link['href']\<close> raises KeyError, and the lister raises instead of
  returning a URL for the block or skipping it. The page below has one article block,
  \<^verbatim>\<open><article><a name="top">Top</a></article>\<close>.
\<close>

theorem get_medium_article_links_placeholder_raises:
  "get_medium_article_links placeholder ''https://m.co/'' 0 = (Inl KeyError, 1)"
  by (simp add: placeholder_def run_simps)

subsection \<open>C8: the domain that completes relative links\<close>

text \<open>
  Claim C8: the domain used to complete relative hrefs is extracted from the final
  resolved URL of the article fetch, after any redirects, not from the URL that was
  requested.

  The code does not do this: it extracts the domain from its argument \<^verbatim>\<open>url\<close>, the
  URL that was requested (the Article Link Lister, in contrast, builds on
  \<^verbatim>\<open>data.url\<close>). The article below is requested on \<^verbatim>\<open>medium.com\<close> and served,
  after a redirect, from \<^verbatim>\<open>p.medium.com\<close>; its relative link \<^verbatim>\<open>/about\<close> is
  completed with \<^verbatim>\<open>medium.com\<close>.
\<close>

theorem check_medium_article_links_uses_requested_domain:
  "requests_get redirected ''https://medium.com/@p/one'' 0
     = (Inr (Response ''https://p.medium.com/one'' ''one'' 200
               [Response ''https://medium.com/@p/one'' [] 301 []]), 1)
   \<and> tldextract_fqdn redirected ''https://p.medium.com/one'' = ''p.medium.com''
   \<and> check_medium_article_links redirected ''https://medium.com/@p/one'' 0
       = (Inr [\<lparr>url = ''https://medium.com/about'', anchor = ''About'', http_status = 200,
                redirect_chain = [], final_url = ''https://medium.com/about''\<rparr>], 2)"
  by (simp add: redirected_def run_simps)

subsection \<open>C9: the report\<close>

text \<open>
  Claim C9, as amended: a profile run returns a report exactly when the listing returns
  and the link check of every listed article returns; if one of them raises, the run
  raises and produces no record. A report that is returned holds exactly one record per
  discovered article URL, in the order of discovery; the record of an article holds that
  URL, the string-encoded time read in the state in which that article's link check
  ended, and the article's Links, each serialized as a dictionary of exactly the five
  fields url, anchor, http_status, redirect_chain and final_url, every field with the
  value the Link has for it.

  In the statement, \<open>ws\<close> are the states of the world before each article's turn and
  after the last one. The first part is about the runs that return a report, the second
  about the dictionary of a Link, the third and the fourth about a listing that raises
  and about the first article, the one at position \<open>k\<close>, whose link check raises.
\<close>

theorem check_medium_links_report:
  "(check_medium_links env profile_url w = (Inr out, w') \<longleftrightarrow>
     (\<exists>arts ws.
        get_medium_article_links env profile_url w = (Inr arts, ws ! 0) \<and>
        length ws = Suc (length arts) \<and> ws ! length arts = w' \<and>
        length out = length arts \<and>
        (\<forall>i<length arts. \<exists>ls wi ts.
            check_medium_article_links env (arts ! i) (ws ! i) = (Inr ls, wi) \<and>
            str_time_time env wi = (ts, ws ! Suc i) \<and>
            out ! i =
              PDict [(''url'', PStr (arts ! i)), (''timestamp'', PStr ts),
                     (''links'', PList (map (\<lambda>l. PDict
                        [(''url'', PStr (url l)),
                         (''anchor'', PStr (anchor l)),
                         (''http_status'', PInt (http_status l)),
                         (''redirect_chain'', PList (map PStr (redirect_chain l))),
                         (''final_url'', PStr (final_url l))]) ls))])))
   \<and> (\<forall>l. to_dict l = PDict
            [(''url'', PStr (url l)),
             (''anchor'', PStr (anchor l)),
             (''http_status'', PInt (http_status l)),
             (''redirect_chain'', PList (map PStr (redirect_chain l))),
             (''final_url'', PStr (final_url l))])
   \<and> (get_medium_article_links env profile_url w = (Inl e, w') \<longrightarrow>
        check_medium_links env profile_url w = (Inl e, w'))
   \<and> (\<forall>arts k ws.
        get_medium_article_links env profile_url w = (Inr arts, ws ! 0) \<and>
        k < length arts \<and> length ws = Suc k \<and>
        (\<forall>i<k. \<exists>ls wi ts.
            check_medium_article_links env (arts ! i) (ws ! i) = (Inr ls, wi) \<and>
            str_time_time env wi = (ts, ws ! Suc i)) \<and>
        check_medium_article_links env (arts ! k) (ws ! k) = (Inl e, w')
        \<longrightarrow> check_medium_links env profile_url w = (Inl e, w'))"
proof (intro conjI allI impI)
  show "to_dict l = PDict
            [(''url'', PStr (url l)),
             (''anchor'', PStr (anchor l)),
             (''http_status'', PInt (http_status l)),
             (''redirect_chain'', PList (map PStr (redirect_chain l))),
             (''final_url'', PStr (final_url l))]" for l
    by (simp add: to_dict_def)
next
  have ser: "to_dict = (\<lambda>l. PDict
            [(''url'', PStr (url l)),
             (''anchor'', PStr (anchor l)),
             (''http_status'', PInt (http_status l)),
             (''redirect_chain'', PList (map PStr (redirect_chain l))),
             (''final_url'', PStr (final_url l))])"
    by (rule ext) (simp add: to_dict_def)
  have "check_medium_links env profile_url w = (Inr out, w') \<longleftrightarrow>
     (\<exists>arts ws.
        get_medium_article_links env profile_url w = (Inr arts, ws ! 0) \<and>
        length ws = Suc (length arts) \<and> ws ! length arts = w' \<and>
        length out = length arts \<and>
        (\<forall>i<length arts. \<exists>ls wi ts.
            check_medium_article_links env (arts ! i) (ws ! i) = (Inr ls, wi) \<and>
            str_time_time env wi = (ts, ws ! Suc i) \<and>
            out ! i = report_record (arts ! i) ts ls))"
    by (cases "get_medium_article_links env profile_url w")
       (auto simp: check_medium_links_def report_loop_turns split: sum.splits)
  then show "check_medium_links env profile_url w = (Inr out, w') \<longleftrightarrow>
     (\<exists>arts ws.
        get_medium_article_links env profile_url w = (Inr arts, ws ! 0) \<and>
        length ws = Suc (length arts) \<and> ws ! length arts = w' \<and>
        length out = length arts \<and>
        (\<forall>i<length arts. \<exists>ls wi ts.
            check_medium_article_links env (arts ! i) (ws ! i) = (Inr ls, wi) \<and>
            str_time_time env wi = (ts, ws ! Suc i) \<and>
            out ! i =
              PDict [(''url'', PStr (arts ! i)), (''timestamp'', PStr ts),
                     (''links'', PList (map (\<lambda>l. PDict
                        [(''url'', PStr (url l)),
                         (''anchor'', PStr (anchor l)),
                         (''http_status'', PInt (http_status l)),
                         (''redirect_chain'', PList (map PStr (redirect_chain l))),
                         (''final_url'', PStr (final_url l))]) ls))]))"
    by (simp only: report_record_def ser)
next
  assume "get_medium_article_links env profile_url w = (Inl e, w')"
  then show "check_medium_links env profile_url w = (Inl e, w')"
    by (simp add: check_medium_links_def)
next
  fix arts k ws
  assume h: "get_medium_article_links env profile_url w = (Inr arts, ws ! 0) \<and>
        k < length arts \<and> length ws = Suc k \<and>
        (\<forall>i<k. \<exists>ls wi ts.
            check_medium_article_links env (arts ! i) (ws ! i) = (Inr ls, wi) \<and>
            str_time_time env wi = (ts, ws ! Suc i)) \<and>
        check_medium_article_links env (arts ! k) (ws ! k) = (Inl e, w')"
  then have "report_loop env arts [] (ws ! 0) = (Inl e, w')"
    by (intro report_loop_raises [of k _ ws]) auto
  with h show "check_medium_links env profile_url w = (Inl e, w')"
    by (simp add: check_medium_links_def)
qed

text \<open>
  A profile with one article that holds one link, reached after two redirects, so that
  the five fields of its Link all differ. The run returns one record; its time is the
  one the clock shows in state 3, after the requests for the profile, the article and
  the link. A profile that cannot be fetched: the listing raises, and so does the run.
  And a profile whose only article is a page without an article block: its link check
  raises AttributeError (position 0, in state 1), and so does the run.
\<close>

theorem check_medium_links_report_witness:
  "check_medium_links tiny ''https://q.medium.com'' 0
     = (Inr [PDict [(''url'', PStr ''https://q.medium.com/post''),
                    (''timestamp'', PStr ''1700000000.555''),
                    (''links'', PList [PDict
                       [(''url'', PStr ''https://a.org/old''),
                        (''anchor'', PStr ''Old post''),
                        (''http_status'', PInt 203),
                        (''redirect_chain'',
                           PList [PStr ''https://a.org/old'', PStr ''https://a.org/mid'']),
                        (''final_url'', PStr ''https://a.org/mid'')]])]], 4)
   \<and> (\<exists>arts ws.
        get_medium_article_links tiny ''https://q.medium.com'' 0 = (Inr arts, ws ! 0) \<and>
        length ws = Suc (length arts) \<and> ws ! length arts = 4 \<and>
        length [PDict [(''url'', PStr ''https://q.medium.com/post''),
                    (''timestamp'', PStr ''1700000000.555''),
                    (''links'', PList [PDict
                       [(''url'', PStr ''https://a.org/old''),
                        (''anchor'', PStr ''Old post''),
                        (''http_status'', PInt 203),
                        (''redirect_chain'',
                           PList [PStr ''https://a.org/old'', PStr ''https://a.org/mid'']),
                        (''final_url'', PStr ''https://a.org/mid'')]])]] = length arts \<and>
        (\<forall>i<length arts. \<exists>ls wi ts.
            check_medium_article_links tiny (arts ! i) (ws ! i) = (Inr ls, wi) \<and>
            str_time_time tiny wi = (ts, ws ! Suc i) \<and>
            [PDict [(''url'', PStr ''https://q.medium.com/post''),
                    (''timestamp'', PStr ''1700000000.555''),
                    (''links'', PList [PDict
                       [(''url'', PStr ''https://a.org/old''),
                        (''anchor'', PStr ''Old post''),
                        (''http_status'', PInt 203),
                        (''redirect_chain'',
                           PList [PStr ''https://a.org/old'', PStr ''https://a.org/mid'']),
                        (''final_url'', PStr ''https://a.org/mid'')]])]] ! i
              = PDict [(''url'', PStr (arts ! i)), (''timestamp'', PStr ts),
                     (''links'', PList (map (\<lambda>l. PDict
                        [(''url'', PStr (url l)),
                         (''anchor'', PStr (anchor l)),
                         (''http_status'', PInt (http_status l)),
                         (''redirect_chain'', PList (map PStr (redirect_chain l))),
                         (''final_url'', PStr (final_url l))]) ls))]))
   \<and> check_medium_links tiny ''https://nowhere.invalid/'' 0 = (Inl RequestException, 1)
   \<and> check_medium_links bare ''https://m.co/'' 0 = (Inl AttributeError, 2)"
proof -
  have ev: "check_medium_links tiny ''https://q.medium.com'' 0
     = (Inr [PDict [(''url'', PStr ''https://q.medium.com/post''),
                    (''timestamp'', PStr ''1700000000.555''),
                    (''links'', PList [PDict
                       [(''url'', PStr ''https://a.org/old''),
                        (''anchor'', PStr ''Old post''),
                        (''http_status'', PInt 203),
                        (''redirect_chain'',
                           PList [PStr ''https://a.org/old'', PStr ''https://a.org/mid'']),
                        (''final_url'', PStr ''https://a.org/mid'')]])]], 4)"
    by (simp add: tiny_def run_simps)
  have listing: "check_medium_links tiny ''https://nowhere.invalid/'' 0
                   = (Inl RequestException, 1)"
    by (rule check_medium_links_report
          [THEN conjunct2, THEN conjunct2, THEN conjunct1, rule_format])
       (simp add: tiny_def run_simps)
  have esc: "check_medium_links bare ''https://m.co/'' 0 = (Inl AttributeError, 2)"
    by (rule check_medium_links_report
          [THEN conjunct2, THEN conjunct2, THEN conjunct2, rule_format,
           where arts = "[''https://m.co/p'']" and k = 0 and ws = "[1]"])
       (simp add: bare_def run_simps)
  from ev check_medium_links_report [THEN conjunct1, THEN iffD1, OF ev] listing esc
  show ?thesis
    by (intro conjI)
qed

text \<open>
  Claim C9 as it was stated fails: the listing of this profile discovers one article,
  whose page has no article block. Its link check raises AttributeError, as every link
  check of such a page does, and so does the run; there is no record for the discovered
  article.
\<close>

theorem check_medium_links_aborts:
  "get_medium_article_links bare ''https://m.co/'' 0 = (Inr [''https://m.co/p''], 1)
   \<and> check_medium_article_links bare ''https://m.co/p'' 1 = (Inl AttributeError, 2)
   \<and> check_medium_links bare ''https://m.co/'' 0 = (Inl AttributeError, 2)"
  by (simp add: bare_def run_simps)

subsection \<open>C10: an article page without an article block\<close>

text \<open>
  Claim C10: for an article page whose HTML contains no \<^verbatim>\<open>article\<close> element, the
  Link Checker does not return an empty sequence but raises an exception: it asks the
  absent block for its hyperlinks. This holds for every such page that can be fetched;
  the exception is AttributeError.
\<close>

theorem check_medium_article_links_no_article:
  assumes "requests_get env u w = (Inr data, w')"
      and "bs4_find_all ''article'' (BeautifulSoup env (resp_text data)) = []"
  shows "check_medium_article_links env u w = (Inl AttributeError, w')"
  using assms by (simp add: check_medium_article_links_def make_request_def bs4_find_def)

theorem check_medium_article_links_no_article_witness:
  "requests_get bare ''https://m.co/p'' 0 = (Inr (Response ''https://m.co/p'' ''plain'' 200 []), 1)
   \<and> bs4_find_all ''article'' (BeautifulSoup bare ''plain'') = []
   \<and> check_medium_article_links bare ''https://m.co/p'' 0 = (Inl AttributeError, 1)"
  using check_medium_article_links_no_article
    [of bare "''https://m.co/p''" 0 "Response ''https://m.co/p'' ''plain'' 200 []" 1]
  by (simp add: bare_def web_def page_def hyperlink_def bs4_find_all_def)

section \<open>Further properties\<close>

text \<open>
  What \<^verbatim>\<open>extract_href\<close> returns, with stripping on, for an anchor that has an href:
  IndexError when nothing is left of the href after the cut at the first question mark
  (the href is empty or begins with a question mark); otherwise the href after the cut,
  preceded by scheme and domain when it begins with a slash. An href that contains
  \<^verbatim>\<open>youtube.com/watch\<close> is not cut.
\<close>

theorem extract_href_result:
  assumes "tag_getitem a ''href'' = Inr href"
  shows "(\<not> py_in ''youtube.com/watch'' href \<longrightarrow>
            extract_href a current_domain scheme True =
              (if takeWhile (\<lambda>c. c \<noteq> CHR ''?'') href = [] then Inl IndexError
               else Inr ((if hd href = CHR ''/'' then scheme @ ''://'' @ current_domain
                          else [])
                         @ takeWhile (\<lambda>c. c \<noteq> CHR ''?'') href)))
       \<and> (py_in ''youtube.com/watch'' href \<longrightarrow>
            extract_href a current_domain scheme True =
              Inr ((if hd href = CHR ''/'' then scheme @ ''://'' @ current_domain else [])
                   @ href))"
proof (intro conjI impI)
  assume n: "\<not> py_in ''youtube.com/watch'' href"
  show "extract_href a current_domain scheme True =
              (if takeWhile (\<lambda>c. c \<noteq> CHR ''?'') href = [] then Inl IndexError
               else Inr ((if hd href = CHR ''/'' then scheme @ ''://'' @ current_domain
                          else [])
                         @ takeWhile (\<lambda>c. c \<noteq> CHR ''?'') href))"
    using assms n by (cases href) (auto simp: extract_href_present reconstitute_def)
next
  assume y: "py_in ''youtube.com/watch'' href"
  then have "href \<noteq> []" by auto
  with assms y show "extract_href a current_domain scheme True =
              Inr ((if hd href = CHR ''/'' then scheme @ ''://'' @ current_domain else [])
                   @ href)"
    by (cases href) (auto simp: extract_href_present reconstitute_def)
qed

theorem extract_href_result_witness:
  "tag_getitem (Tag ''a'' [(''href'', ''?page=2'')] [NavigableString ''next'']) ''href''
     = Inr ''?page=2''
   \<and> \<not> py_in ''youtube.com/watch'' ''?page=2''
   \<and> extract_href (Tag ''a'' [(''href'', ''?page=2'')] [NavigableString ''next''])
       ''medium.com'' ''https'' True = Inl IndexError"
  using extract_href_result
    [of "Tag ''a'' [(''href'', ''?page=2'')] [NavigableString ''next'']" "''?page=2''"
        "''medium.com''" "''https''"]
  by simp

text \<open>
  What the Article Link Lister returns for a page that was fetched, when the first
  \<^verbatim>\<open>a\<close> element of every article block has an href: for each article block with an
  \<^verbatim>\<open>a\<close> element, in document order, one URL, built from the resolved URL of the page
  and the href of the first \<^verbatim>\<open>a\<close> element and cut at the first question mark. Blocks
  without an \<^verbatim>\<open>a\<close> element contribute nothing, and equal URLs are kept.
\<close>

theorem get_medium_article_links_lists:
  assumes "requests_get env u w = (Inr data, w')"
      and "resp_url data \<noteq> []"
      and "\<forall>art\<in>set (bs4_find_all ''article'' (BeautifulSoup env (resp_text data))).
             \<forall>link. bs4_find ''a'' art = Some link \<longrightarrow>
               (\<exists>h. tag_getitem link ''href'' = Inr h)"
  shows "get_medium_article_links env u w =
           (Inr (concat (map (first_href data)
                   (bs4_find_all ''article'' (BeautifulSoup env (resp_text data))))), w')"
  using assms
  by (simp add: get_medium_article_links_def make_request_def article_links_loop_eq)

theorem get_medium_article_links_lists_witness:
  "requests_get medium ''https://p.medium.com/'' 0
     = (Inr (Response ''https://p.medium.com/'' ''feed'' 200 []), 1)
   \<and> get_medium_article_links medium ''https://p.medium.com/'' 0
     = (Inr [''https://p.medium.com/one'', ''https://p.medium.com/two''], 1)"
  using get_medium_article_links_lists
    [of medium "''https://p.medium.com/''" 0 "Response ''https://p.medium.com/'' ''feed'' 200 []" 1]
  by (simp add: medium_def run_simps first_href_def)

text \<open>
  What \<^verbatim>\<open>create_link\<close> returns when the request returns a response: no Link for a
  status from 400 to 599, and otherwise the Link with the status of the response and the
  URLs of its redirect history.
\<close>

theorem create_link_result:
  assumes "requests_get env u w = (Inr data, w')"
  shows "create_link env u a w =
           (if 400 \<le> status_code data \<and> status_code data < 600 then (Inr None, w')
            else (Inr (Some \<lparr> url = u, anchor = a, http_status = status_code data,
                              redirect_chain = map resp_url (history data),
                              final_url = (if history data = [] then u
                                           else resp_url (last (history data))) \<rparr>), w'))"
  using assms
  by (auto simp: create_link_def make_request_def response_bool_def Link_init_def Let_def
                 last_map)

theorem create_link_result_witness:
  "requests_get medium ''https://p.medium.com/gone'' 3
     = (Inr (Response ''https://p.medium.com/gone'' [] 404 []), 4)
   \<and> create_link medium ''https://p.medium.com/gone'' ''Gone'' 3 = (Inr None, 4)"
  using create_link_result
    [of medium "''https://p.medium.com/gone''" 3
        "Response ''https://p.medium.com/gone'' [] 404 []" 4 "''Gone''"]
  by (simp add: medium_def web_def page_def)

text \<open>
  What the Link Checker returns. It returns a list exactly when the page has an article
  block and every hyperlink in it, at its turn, normalizes to an href and the fetch of
  that href returns a response; the list then holds, in document order, the Links that
  \<^verbatim>\<open>create_link\<close> built, and nothing for a hyperlink for which it built none. And it
  raises what the first hyperlink that raises at its turn raises. In the statement,
  \<open>ws\<close> are the states of the world before each hyperlink's turn and after the last
  one, and \<open>rs\<close> is what \<^verbatim>\<open>create_link\<close> returned for each hyperlink.
\<close>

theorem check_medium_article_links_returns_iff:
  "(check_medium_article_links env u w = (Inr out, w') \<longleftrightarrow>
     (\<exists>data art ws rs.
        requests_get env u w = (Inr data, ws ! 0) \<and>
        bs4_find ''article'' (BeautifulSoup env (resp_text data)) = Some art \<and>
        length ws = Suc (length (bs4_find_all ''a'' art)) \<and>
        length rs = length (bs4_find_all ''a'' art) \<and>
        ws ! length (bs4_find_all ''a'' art) = w' \<and>
        (\<forall>i<length (bs4_find_all ''a'' art). \<exists>href.
            extract_href (bs4_find_all ''a'' art ! i) (tldextract_fqdn env u) ''https'' True
              = Inr href \<and>
            create_link env href (get_text_strip env (bs4_find_all ''a'' art ! i)) (ws ! i)
              = (Inr (rs ! i), ws ! Suc i)) \<and>
        out = concat (map link_list rs)))
   \<and> (\<forall>data art k ws.
        requests_get env u w = (Inr data, ws ! 0) \<and>
        bs4_find ''article'' (BeautifulSoup env (resp_text data)) = Some art \<and>
        k < length (bs4_find_all ''a'' art) \<and> length ws = Suc k \<and>
        (\<forall>i<k. \<exists>href r.
            extract_href (bs4_find_all ''a'' art ! i) (tldextract_fqdn env u) ''https'' True
              = Inr href \<and>
            create_link env href (get_text_strip env (bs4_find_all ''a'' art ! i)) (ws ! i)
              = (Inr r, ws ! Suc i)) \<and>
        ((extract_href (bs4_find_all ''a'' art ! k) (tldextract_fqdn env u) ''https'' True
            = Inl e \<and> w' = ws ! k) \<or>
         (\<exists>href.
            extract_href (bs4_find_all ''a'' art ! k) (tldextract_fqdn env u) ''https'' True
              = Inr href \<and>
            requests_get env href (ws ! k) = (Inl e, w')))
        \<longrightarrow> check_medium_article_links env u w = (Inl e, w'))"
proof (intro conjI allI impI)
  have step: "(\<exists>href. extract_href a cd ''https'' True = Inr href \<and>
                create_link env href (get_text_strip env a) w1 = (Inr r, w2))
              \<longleftrightarrow> the_link env cd a w1 = (Inr r, w2)" for a cd w1 r w2
    by (auto simp: the_link_def split: sum.splits)
  show "check_medium_article_links env u w = (Inr out, w') \<longleftrightarrow>
     (\<exists>data art ws rs.
        requests_get env u w = (Inr data, ws ! 0) \<and>
        bs4_find ''article'' (BeautifulSoup env (resp_text data)) = Some art \<and>
        length ws = Suc (length (bs4_find_all ''a'' art)) \<and>
        length rs = length (bs4_find_all ''a'' art) \<and>
        ws ! length (bs4_find_all ''a'' art) = w' \<and>
        (\<forall>i<length (bs4_find_all ''a'' art). \<exists>href.
            extract_href (bs4_find_all ''a'' art ! i) (tldextract_fqdn env u) ''https'' True
              = Inr href \<and>
            create_link env href (get_text_strip env (bs4_find_all ''a'' art ! i)) (ws ! i)
              = (Inr (rs ! i), ws ! Suc i)) \<and>
        out = concat (map link_list rs))"
    unfolding step
    by (cases "requests_get env u w")
       (auto simp: check_medium_article_links_def make_request_def links_loop_turns Let_def
             split: sum.splits option.splits)
next
  fix data art k ws
  assume h: "requests_get env u w = (Inr data, ws ! 0) \<and>
        bs4_find ''article'' (BeautifulSoup env (resp_text data)) = Some art \<and>
        k < length (bs4_find_all ''a'' art) \<and> length ws = Suc k \<and>
        (\<forall>i<k. \<exists>href r.
            extract_href (bs4_find_all ''a'' art ! i) (tldextract_fqdn env u) ''https'' True
              = Inr href \<and>
            create_link env href (get_text_strip env (bs4_find_all ''a'' art ! i)) (ws ! i)
              = (Inr r, ws ! Suc i)) \<and>
        ((extract_href (bs4_find_all ''a'' art ! k) (tldextract_fqdn env u) ''https'' True
            = Inl e \<and> w' = ws ! k) \<or>
         (\<exists>href.
            extract_href (bs4_find_all ''a'' art ! k) (tldextract_fqdn env u) ''https'' True
              = Inr href \<and>
            requests_get env href (ws ! k) = (Inl e, w')))"
  then have turns: "\<forall>i<k. \<exists>r. the_link env (tldextract_fqdn env u)
                      (bs4_find_all ''a'' art ! i) (ws ! i) = (Inr r, ws ! Suc i)"
    by (auto simp: the_link_def)
  from h have raised: "the_link env (tldextract_fqdn env u)
                      (bs4_find_all ''a'' art ! k) (ws ! k) = (Inl e, w')"
    unfolding the_link_raises by blast
  from h turns raised
  have "links_loop env (tldextract_fqdn env u) (bs4_find_all ''a'' art) [] (ws ! 0)
          = (Inl e, w')"
    by (intro links_loop_raises [of k _ ws]) auto
  with h show "check_medium_article_links env u w = (Inl e, w')"
    by (simp add: check_medium_article_links_def make_request_def)
qed

text \<open>
  The first article of the example profile: three hyperlinks, the second answering 404.
  The check returns, and the list holds the Links of the first and the third. And a page
  whose article block holds an anchor without href: its normalization raises KeyError
  (position 0, in state 1), and so does the check.
\<close>

theorem check_medium_article_links_returns_iff_witness:
  "check_medium_article_links medium ''https://p.medium.com/one'' 0
     = (Inr [\<lparr>url = ''https://a.org/'', anchor = ''A'', http_status = 200,
              redirect_chain = [], final_url = ''https://a.org/''\<rparr>,
            \<lparr>url = ''https://b.org/'', anchor = ''B'', http_status = 200,
              redirect_chain = [], final_url = ''https://b.org/''\<rparr>], 4)
   \<and> (\<exists>data art ws rs.
        requests_get medium ''https://p.medium.com/one'' 0 = (Inr data, ws ! 0) \<and>
        bs4_find ''article'' (BeautifulSoup medium (resp_text data)) = Some art \<and>
        length ws = Suc (length (bs4_find_all ''a'' art)) \<and>
        length rs = length (bs4_find_all ''a'' art) \<and>
        ws ! length (bs4_find_all ''a'' art) = 4 \<and>
        (\<forall>i<length (bs4_find_all ''a'' art). \<exists>href.
            extract_href (bs4_find_all ''a'' art ! i)
              (tldextract_fqdn medium ''https://p.medium.com/one'') ''https'' True
              = Inr href \<and>
            create_link medium href (get_text_strip medium (bs4_find_all ''a'' art ! i))
              (ws ! i)
              = (Inr (rs ! i), ws ! Suc i)) \<and>
        [\<lparr>url = ''https://a.org/'', anchor = ''A'', http_status = 200,
           redirect_chain = [], final_url = ''https://a.org/''\<rparr>,
         \<lparr>url = ''https://b.org/'', anchor = ''B'', http_status = 200,
           redirect_chain = [], final_url = ''https://b.org/''\<rparr>]
          = concat (map link_list rs))
   \<and> check_medium_article_links placeholder ''https://m.co/'' 0 = (Inl KeyError, 1)"
proof -
  have ev: "check_medium_article_links medium ''https://p.medium.com/one'' 0
     = (Inr [\<lparr>url = ''https://a.org/'', anchor = ''A'', http_status = 200,
              redirect_chain = [], final_url = ''https://a.org/''\<rparr>,
            \<lparr>url = ''https://b.org/'', anchor = ''B'', http_status = 200,
              redirect_chain = [], final_url = ''https://b.org/''\<rparr>], 4)"
    by (simp add: medium_def run_simps)
  have esc: "check_medium_article_links placeholder ''https://m.co/'' 0 = (Inl KeyError, 1)"
    by (rule check_medium_article_links_returns_iff [THEN conjunct2, rule_format,
          where data = "Response ''https://m.co/'' ''feed'' 200 []"
            and art = "Tag ''article'' []
                         [Tag ''a'' [(''name'', ''top'')] [NavigableString ''Top'']]"
            and k = 0 and ws = "[1]"])
       (simp add: placeholder_def run_simps)
  from ev check_medium_article_links_returns_iff [THEN conjunct1, THEN iffD1, OF ev] esc
  show ?thesis
    by (intro conjI)
qed

end
